theory Spec2Isabelle
  imports Complex_Main "HOL-Library.Sublist"
begin

section \<open>Exhaustive vertex enumeration for linear programs\<close>

text \<open>
  The development embeds the functions \<open>get_vertices\<close> and \<open>LP_exhaustive_search\<close> of
  \<^verbatim>\<open>LP_exhaustive_vs_simplex_fixed.qmd\<close>. Array entries are modelled as exact reals
  (the source computes with IEEE doubles); every \<open>raise\<close> of Python or numpy is a value
  \<open>Inl e\<close> of a sum type. The library routine \<open>np.linalg.solve\<close> is a parameter
  \<open>solve\<close> of the model.
\<close>

subsection \<open>Errors and arrays\<close>

datatype error = IndexError | ValueError | LinAlgError | OtherException string

text \<open>A two-dimensional array: \<open>np.shape(A)[0]\<close> is the number of rows,
  \<open>np.shape(A)[1]\<close> is \<open>ncols\<close>.\<close>

record matrix =
  ncols :: nat
  rows :: "real list list"

type_synonym solver = "real list list \<Rightarrow> real list \<Rightarrow> error + real list"

definition shape0 :: "matrix \<Rightarrow> nat" where
  "shape0 A = length (rows A)"

definition shape1 :: "matrix \<Rightarrow> nat" where
  "shape1 A = ncols A"

text \<open>\<open>itertools.combinations(xs, k)\<close>: the \<open>k\<close>-element subsequences of \<open>xs\<close>, in
  lexicographic order of positions.\<close>

fun combinations :: "'a list \<Rightarrow> nat \<Rightarrow> 'a list list" where
  "combinations xs 0 = [[]]"
| "combinations [] (Suc k) = []"
| "combinations (x # xs) (Suc k) =
     map ((#) x) (combinations xs k) @ combinations xs (Suc k)"

text \<open>\<open>itertools.combinations(range(m + n), n)\<close>\<close>

definition row_index_combinations :: "nat \<Rightarrow> nat \<Rightarrow> nat list list" where
  "row_index_combinations m n = combinations [0..<m + n] n"

definition np_eye :: "nat \<Rightarrow> real list list" where
  "np_eye n = map (\<lambda>i. map (\<lambda>j. if i = j then 1 else 0) [0..<n]) [0..<n]"

definition np_zeros :: "nat \<Rightarrow> real list" where
  "np_zeros n = replicate n 0"

text \<open>\<open>np.vstack((A, np.eye(n)))\<close> with \<open>n = np.shape(A)[1]\<close>: both blocks have \<open>n\<close>
  columns, so the call cannot raise.\<close>

definition np_vstack :: "real list list \<Rightarrow> real list list \<Rightarrow> real list list" where
  "np_vstack R I = R @ I"

definition np_hstack :: "real list \<Rightarrow> real list \<Rightarrow> real list" where
  "np_hstack u v = u @ v"

text \<open>Indexing with a list of non-negative indices, \<open>xs[list(row_combo)]\<close>: a copy of the
  selected entries, \<open>IndexError\<close> when an index is out of bounds.\<close>

fun take_idx :: "'a list \<Rightarrow> nat list \<Rightarrow> error + 'a list" where
  "take_idx xs [] = Inr []"
| "take_idx xs (i # is) =
     (if i < length xs then
        (case take_idx xs is of Inl e \<Rightarrow> Inl e | Inr ys \<Rightarrow> Inr (xs ! i # ys))
      else Inl IndexError)"

subsection \<open>Array operations used by the solver\<close>

text \<open>\<open>M[:, :n]\<close>\<close>

definition slice_cols :: "nat \<Rightarrow> real list list \<Rightarrow> real list list" where
  "slice_cols n M = map (take n) M"

text \<open>\<open>x[(np.abs(x) < 1e-14)] = 0\<close>\<close>

definition snap_to_zero :: "real list \<Rightarrow> real list" where
  "snap_to_zero x = map (\<lambda>v. if \<bar>v\<bar> < 1 / 10 ^ 14 then 0 else v) x"

definition inner :: "real list \<Rightarrow> real list \<Rightarrow> real" where
  "inner u v = sum_list (map2 (*) u v)"

text \<open>\<open>A @ x\<close> for a two-dimensional \<open>A\<close> and a one-dimensional \<open>x\<close>: the shapes must
  agree, else numpy raises \<open>ValueError\<close>.\<close>

definition matvec :: "matrix \<Rightarrow> real list \<Rightarrow> error + real list" where
  "matvec A x =
     (if length x = ncols A then Inr (map (\<lambda>r. inner r x) (rows A)) else Inl ValueError)"

text \<open>\<open>u <= v\<close> on one-dimensional arrays, with numpy's broadcasting: equal lengths
  compare entry by entry, an array of length one is stretched, any other pair of lengths
  raises \<open>ValueError\<close>.\<close>

definition np_le :: "real list \<Rightarrow> real list \<Rightarrow> error + bool list" where
  "np_le u v =
     (if length u = length v then Inr (map2 (\<le>) u v)
      else if length u = 1 then Inr (map (\<lambda>y. hd u \<le> y) v)
      else if length v = 1 then Inr (map (\<lambda>x. x \<le> hd v) u)
      else Inl ValueError)"

definition np_all :: "bool list \<Rightarrow> bool" where
  "np_all bs = list_all (\<lambda>t. t) bs"

text \<open>\<open>np.dot(u, v)\<close> on one-dimensional arrays: \<open>ValueError\<close> unless the lengths
  agree.\<close>

definition np_dot :: "real list \<Rightarrow> real list \<Rightarrow> error + real" where
  "np_dot u v = (if length u = length v then Inr (inner u v) else Inl ValueError)"

text \<open>\<open>np.min(xs)\<close> of a Python list: \<open>ValueError\<close> on the empty list (a reduction
  with no identity).\<close>

fun np_min :: "real list \<Rightarrow> error + real" where
  "np_min [] = Inl ValueError"
| "np_min (x # xs) = Inr (fold min xs x)"

subsection \<open>\<open>get_vertices\<close>\<close>

text \<open>The body of the \<open>try\<close> statement: the solve, the snap to zero and the
  feasibility test. \<open>Inr (Some x)\<close>: \<open>x\<close> is appended; \<open>Inr None\<close>: the test failed;
  \<open>Inl e\<close>: the body raised \<open>e\<close>.\<close>

definition try_body ::
  "solver \<Rightarrow> matrix \<Rightarrow> real list \<Rightarrow> nat \<Rightarrow> real list list \<Rightarrow> real list
     \<Rightarrow> error + real list option" where
  "try_body solve A b n A_constraints b_constraints =
     (case solve (slice_cols n A_constraints) b_constraints of
        Inl e \<Rightarrow> Inl e
      | Inr x0 \<Rightarrow>
          (let x = snap_to_zero x0 in
           if np_all (map (\<lambda>v. 0 \<le> v) x) then
             (case matvec A x of
                Inl e \<Rightarrow> Inl e
              | Inr Ax \<Rightarrow>
                  (case np_le Ax (map (\<lambda>v. v + 1 / 10 ^ 10) b) of
                     Inl e \<Rightarrow> Inl e
                   | Inr ts \<Rightarrow> Inr (if np_all ts then Some x else None)))
           else Inr None))"

text \<open>The \<open>for\<close> loop over the row combinations. The two row selections stand before
  the \<open>try\<close>, so their \<open>IndexError\<close> leaves the function; the bare \<open>except: pass\<close>
  turns every exception of the body into a skipped combination.\<close>

fun vertices_loop ::
  "solver \<Rightarrow> matrix \<Rightarrow> real list \<Rightarrow> nat \<Rightarrow> real list list \<Rightarrow> real list
     \<Rightarrow> nat list list \<Rightarrow> real list list \<Rightarrow> error + real list list" where
  "vertices_loop solve A b n A_stacked b_stacked [] feasible_vertices = Inr feasible_vertices"
| "vertices_loop solve A b n A_stacked b_stacked (row_combo # rest) feasible_vertices =
     (case take_idx A_stacked row_combo of
        Inl e \<Rightarrow> Inl e
      | Inr A_constraints \<Rightarrow>
          (case take_idx b_stacked row_combo of
             Inl e \<Rightarrow> Inl e
           | Inr b_constraints \<Rightarrow>
               (case try_body solve A b n A_constraints b_constraints of
                  Inr (Some x) \<Rightarrow>
                    vertices_loop solve A b n A_stacked b_stacked rest (feasible_vertices @ [x])
                | Inr None \<Rightarrow>
                    vertices_loop solve A b n A_stacked b_stacked rest feasible_vertices
                | Inl e \<Rightarrow>
                    vertices_loop solve A b n A_stacked b_stacked rest feasible_vertices)))"

definition get_vertices :: "solver \<Rightarrow> matrix \<Rightarrow> real list \<Rightarrow> error + real list list" where
  "get_vertices solve A b =
     (let m = shape0 A;
          n = shape1 A;
          A_stacked = np_vstack (rows A) (np_eye n);
          b_stacked = np_hstack b (np_zeros n)
      in vertices_loop solve A b n A_stacked b_stacked (row_index_combinations m n) [])"

subsection \<open>\<open>LP_exhaustive_search\<close>\<close>

fun objective_loop :: "real list \<Rightarrow> real list list \<Rightarrow> real list \<Rightarrow> error + real list" where
  "objective_loop c [] objective_values = Inr objective_values"
| "objective_loop c (vertex # rest) objective_values =
     (case np_dot (map uminus c) vertex of
        Inl e \<Rightarrow> Inl e
      | Inr vertex_obj_val \<Rightarrow> objective_loop c rest (objective_values @ [vertex_obj_val]))"

definition LP_exhaustive_search ::
  "solver \<Rightarrow> matrix \<Rightarrow> real list \<Rightarrow> real list \<Rightarrow> error + real" where
  "LP_exhaustive_search solve A b c =
     (case get_vertices solve A b of
        Inl e \<Rightarrow> Inl e
      | Inr feasible_vertices \<Rightarrow>
          (case objective_loop c feasible_vertices [] of
             Inl e \<Rightarrow> Inl e
           | Inr objective_values \<Rightarrow> np_min objective_values))"

subsection \<open>An exact instance of the linear solve\<close>

text \<open>For evaluation at concrete inputs the parameter \<open>solve\<close> is instantiated by the
  exact solution of a square system (Cramer's rule, determinants by expansion along the
  first row). Like \<open>np.linalg.solve\<close> it raises \<open>LinAlgError\<close> on a matrix that is
  not square or is singular, and \<open>ValueError\<close> on a right-hand side of the wrong
  length.\<close>

definition del_col :: "nat \<Rightarrow> real list \<Rightarrow> real list" where
  "del_col j r = take j r @ drop (Suc j) r"

fun det :: "real list list \<Rightarrow> real" where
  "det [] = 1"
| "det (r # M) =
     sum_list (map (\<lambda>j. (- 1) ^ j * (r ! j) * det (map (del_col j) M)) [0..<length r])"

definition replace_col :: "real list list \<Rightarrow> nat \<Rightarrow> real list \<Rightarrow> real list list" where
  "replace_col M j v = map2 (\<lambda>r y. r[j := y]) M v"

definition linalg_solve_exact :: solver where
  "linalg_solve_exact M v =
     (if \<not> list_all (\<lambda>r. length r = length M) M then Inl LinAlgError
      else if length v \<noteq> length M then Inl ValueError
      else if det M = 0 then Inl LinAlgError
      else Inr (map (\<lambda>j. det (replace_col M j v) / det M) [0..<length M]))"

subsection \<open>The same functions on a store of mutable arrays\<close>

text \<open>
  numpy arrays are mutable objects passed by reference. To state what the functions write,
  the arrays bound to a name in the source live in a store: an address is an index into
  the list of one-dimensional or of two-dimensional arrays, and a new array is appended.
  Temporaries of expressions (\<open>np.eye(n)\<close>, \<open>A @ x\<close>, \<open>b + 1e-10\<close>, \<open>-c\<close>, the masks)
  are values: they are created and dropped within one expression. The Python lists
  \<open>feasible_vertices\<close> and \<open>objective_values\<close> are local; the former holds addresses.
\<close>

type_synonym addr = nat

record store =
  vecs :: "real list list"
  mats :: "matrix list"

definition new_vec :: "store \<Rightarrow> real list \<Rightarrow> addr \<times> store" where
  "new_vec h v = (length (vecs h), h\<lparr>vecs := vecs h @ [v]\<rparr>)"

definition new_mat :: "store \<Rightarrow> matrix \<Rightarrow> addr \<times> store" where
  "new_mat h M = (length (mats h), h\<lparr>mats := mats h @ [M]\<rparr>)"

text \<open>\<open>x[(np.abs(x) < 1e-14)] = 0\<close>: an assignment into the array at address \<open>x\<close>.\<close>

definition snap_in_place :: "store \<Rightarrow> addr \<Rightarrow> store" where
  "snap_in_place h x = h\<lparr>vecs := (vecs h)[x := snap_to_zero (vecs h ! x)]\<rparr>"

text \<open>The body of the \<open>try\<close>. \<open>np.linalg.solve\<close> reads its arguments and returns a new
  array; \<open>A_constraints[:, :n]\<close> is a view that is only read.\<close>

definition try_body_store ::
  "solver \<Rightarrow> addr \<Rightarrow> addr \<Rightarrow> nat \<Rightarrow> addr \<Rightarrow> addr \<Rightarrow> store
     \<Rightarrow> (error + addr option) \<times> store" where
  "try_body_store solve A b n A_constraints b_constraints h =
     (case solve (slice_cols n (rows (mats h ! A_constraints))) (vecs h ! b_constraints) of
        Inl e \<Rightarrow> (Inl e, h)
      | Inr x0 \<Rightarrow>
          (let (x, h1) = new_vec h x0;
               h2 = snap_in_place h1 x
           in if np_all (map (\<lambda>v. 0 \<le> v) (vecs h2 ! x)) then
                (case matvec (mats h2 ! A) (vecs h2 ! x) of
                   Inl e \<Rightarrow> (Inl e, h2)
                 | Inr Ax \<Rightarrow>
                     (case np_le Ax (map (\<lambda>v. v + 1 / 10 ^ 10) (vecs h2 ! b)) of
                        Inl e \<Rightarrow> (Inl e, h2)
                      | Inr ts \<Rightarrow> (Inr (if np_all ts then Some x else None), h2)))
              else (Inr None, h2)))"

fun vertices_loop_store ::
  "solver \<Rightarrow> addr \<Rightarrow> addr \<Rightarrow> nat \<Rightarrow> addr \<Rightarrow> addr \<Rightarrow> nat list list \<Rightarrow> addr list \<Rightarrow> store
     \<Rightarrow> (error + addr list) \<times> store" where
  "vertices_loop_store solve A b n A_stacked b_stacked [] feasible_vertices h =
     (Inr feasible_vertices, h)"
| "vertices_loop_store solve A b n A_stacked b_stacked (row_combo # rest) feasible_vertices h =
     (case take_idx (rows (mats h ! A_stacked)) row_combo of
        Inl e \<Rightarrow> (Inl e, h)
      | Inr Ac \<Rightarrow>
          (let (A_constraints, h1) = new_mat h \<lparr>ncols = ncols (mats h ! A_stacked), rows = Ac\<rparr>
           in case take_idx (vecs h1 ! b_stacked) row_combo of
                Inl e \<Rightarrow> (Inl e, h1)
              | Inr bc \<Rightarrow>
                  (let (b_constraints, h2) = new_vec h1 bc
                   in case try_body_store solve A b n A_constraints b_constraints h2 of
                        (Inr (Some x), h3) \<Rightarrow>
                          vertices_loop_store solve A b n A_stacked b_stacked rest
                            (feasible_vertices @ [x]) h3
                      | (Inr None, h3) \<Rightarrow>
                          vertices_loop_store solve A b n A_stacked b_stacked rest
                            feasible_vertices h3
                      | (Inl e, h3) \<Rightarrow>
                          vertices_loop_store solve A b n A_stacked b_stacked rest
                            feasible_vertices h3)))"

definition get_vertices_store ::
  "solver \<Rightarrow> addr \<Rightarrow> addr \<Rightarrow> store \<Rightarrow> (error + addr list) \<times> store" where
  "get_vertices_store solve A b h =
     (let m = shape0 (mats h ! A);
          n = shape1 (mats h ! A);
          (A_stacked, h1) =
             new_mat h \<lparr>ncols = n, rows = np_vstack (rows (mats h ! A)) (np_eye n)\<rparr>;
          (b_stacked, h2) = new_vec h1 (np_hstack (vecs h1 ! b) (np_zeros n))
      in vertices_loop_store solve A b n A_stacked b_stacked (row_index_combinations m n) [] h2)"

fun objective_loop_store ::
  "store \<Rightarrow> addr \<Rightarrow> addr list \<Rightarrow> real list \<Rightarrow> error + real list" where
  "objective_loop_store h c [] objective_values = Inr objective_values"
| "objective_loop_store h c (vertex # rest) objective_values =
     (case np_dot (map uminus (vecs h ! c)) (vecs h ! vertex) of
        Inl e \<Rightarrow> Inl e
      | Inr vertex_obj_val \<Rightarrow>
          objective_loop_store h c rest (objective_values @ [vertex_obj_val]))"

definition LP_exhaustive_search_store ::
  "solver \<Rightarrow> addr \<Rightarrow> addr \<Rightarrow> addr \<Rightarrow> store \<Rightarrow> (error + real) \<times> store" where
  "LP_exhaustive_search_store solve A b c h =
     (case get_vertices_store solve A b h of
        (Inl e, h1) \<Rightarrow> (Inl e, h1)
      | (Inr feasible_vertices, h1) \<Rightarrow>
          (case objective_loop_store h1 c feasible_vertices [] of
             Inl e \<Rightarrow> (Inl e, h1)
           | Inr objective_values \<Rightarrow> (np_min objective_values, h1)))"

text \<open>Every array of \<open>h\<close> is an array of \<open>h'\<close> at the same address, with the same
  contents.\<close>

definition unchanged :: "store \<Rightarrow> store \<Rightarrow> bool" where
  "unchanged h h' \<longleftrightarrow>
     take (length (vecs h)) (vecs h') = vecs h \<and> length (vecs h) \<le> length (vecs h')
     \<and> take (length (mats h)) (mats h') = mats h \<and> length (mats h) \<le> length (mats h')"

text \<open>The arrays behind the addresses a function on the store returns.\<close>

definition deref_opt :: "store \<Rightarrow> error + addr option \<Rightarrow> error + real list option" where
  "deref_opt h r = map_sum id (map_option ((!) (vecs h))) r"

definition deref_list :: "store \<Rightarrow> error + addr list \<Rightarrow> error + real list list" where
  "deref_list h r = map_sum id (map ((!) (vecs h))) r"

section \<open>Properties\<close>

subsection \<open>The enumeration of row combinations\<close>

lemma length_combinations: "length (combinations xs k) = length xs choose k"
  by (induction xs k rule: combinations.induct) simp_all

lemma combinations_elem_length: "ys \<in> set (combinations xs k) \<Longrightarrow> length ys = k"
  by (induction xs k arbitrary: ys rule: combinations.induct) auto

lemma combinations_elem_subseq: "ys \<in> set (combinations xs k) \<Longrightarrow> subseq ys xs"
  by (induction xs k arbitrary: ys rule: combinations.induct) auto

lemma subseq_in_combinations: "subseq ys xs \<Longrightarrow> ys \<in> set (combinations xs (length ys))"
proof (induction xs arbitrary: ys)
  case Nil
  then have "ys = []" by (cases ys) auto
  then show ?case by simp
next
  case (Cons x xs)
  show ?case
  proof (cases ys)
    case Nil
    then show ?thesis by simp
  next
    case (Cons y ys')
    show ?thesis
    proof (cases "x = y")
      case True
      with Cons.prems Cons have "subseq ys' xs" by simp
      from Cons.IH [OF this] True Cons show ?thesis by simp
    next
      case False
      with Cons.prems Cons have "subseq ys xs" by (simp add: subseq_Cons2_neq)
      from Cons.IH [OF this] Cons show ?thesis by simp
    qed
  qed
qed

lemma set_combinations: "set (combinations xs k) = {ys. subseq ys xs \<and> length ys = k}"
  using combinations_elem_length combinations_elem_subseq subseq_in_combinations by blast

lemma distinct_combinations: "distinct xs \<Longrightarrow> distinct (combinations xs k)"
proof (induction xs k rule: combinations.induct)
  case (3 x xs k)
  have "x \<notin> set ys" if "ys \<in> set (combinations xs (Suc k))" for ys
    using combinations_elem_subseq [OF that] 3(3) by (auto dest: list_emb_set)
  then have "set (map ((#) x) (combinations xs k)) \<inter> set (combinations xs (Suc k)) = {}"
    by fastforce
  with 3 show ?case by (simp add: distinct_map)
qed simp_all

lemma subseq_sorted_wrt: "subseq xs ys \<Longrightarrow> sorted_wrt P ys \<Longrightarrow> sorted_wrt P xs"
proof (induction rule: list_emb.induct)
  case (list_emb_Cons2 x y xs ys)
  then have "set xs \<subseteq> set ys" by (auto dest: list_emb_set)
  with list_emb_Cons2 show ?case by auto
qed auto

lemma subseq_upt_iff:
  "subseq ys [0..<N] \<longleftrightarrow> sorted_wrt (<) ys \<and> set ys \<subseteq> {0..<N}"
proof
  assume s: "subseq ys [0..<N]"
  have "sorted_wrt (<) ys" by (rule subseq_sorted_wrt [OF s sorted_wrt_upt])
  moreover have "x \<in> {0..<N}" if "x \<in> set ys" for x
  proof -
    from list_emb_set [OF s that] obtain y where "y \<in> set [0..<N]" "x = y" by blast
    then show ?thesis by simp
  qed
  ultimately show "sorted_wrt (<) ys \<and> set ys \<subseteq> {0..<N}" by blast
next
  assume a: "sorted_wrt (<) ys \<and> set ys \<subseteq> {0..<N}"
  have 1: "set ys \<subseteq> set [0..<N]" using a by simp
  have 2: "sorted_wrt (<) ys" using a by simp
  have 3: "sorted_wrt (\<le>) [0..<N]" by (rule sorted_upt)
  show "subseq ys [0..<N]" by (rule sorted_subset_imp_subseq [OF 1 2 3])
qed

lemma binomial_22_10: "(22::nat) choose 10 = 646646"
proof -
  have "fact 10 * fact (22 - 10) * (22 choose 10) = (fact 22 :: nat)"
    by (rule binomial_fact_lemma) simp
  then have "(3628800 * 479001600) * (22 choose 10) = (3628800 * 479001600) * (646646::nat)"
    by (simp add: fact_numeral)
  then show ?thesis
    by (simp only: mult_cancel1) simp
qed

subsection \<open>Row selection\<close>

lemma take_idx_ok:
  "(\<And>i. i \<in> set js \<Longrightarrow> i < length xs) \<Longrightarrow> take_idx xs js = Inr (map ((!) xs) js)"
  by (induction js) auto

lemma take_idx_error:
  "take_idx xs js = Inl e \<Longrightarrow> e = IndexError \<and> (\<exists>i\<in>set js. length xs \<le> i)"
  by (induction js) (auto split: if_splits sum.splits)


subsection \<open>The loop of \<open>get_vertices\<close>\<close>

lemma vertices_loop_append:
  "vertices_loop solve A b n As bs (rcs @ rcs') fv =
     (case vertices_loop solve A b n As bs rcs fv of
        Inl e \<Rightarrow> Inl e
      | Inr fv' \<Rightarrow> vertices_loop solve A b n As bs rcs' fv')"
  by (induction rcs arbitrary: fv) (simp_all split: sum.splits option.splits)

lemma vertices_loop_skip:
  assumes "take_idx As rc = Inr Ac" "take_idx bs rc = Inr bc"
    and "try_body solve A b n Ac bc = Inl e"
  shows "vertices_loop solve A b n As bs (pre @ rc # post) fv =
         vertices_loop solve A b n As bs (pre @ post) fv"
  using assms by (simp add: vertices_loop_append split: sum.splits)

lemma vertices_loop_error:
  "vertices_loop solve A b n As bs rcs fv = Inl e \<Longrightarrow>
     e = IndexError \<and> (\<exists>rc\<in>set rcs. \<exists>i\<in>set rc. length As \<le> i \<or> length bs \<le> i)"
proof (induction rcs arbitrary: fv)
  case (Cons rc rcs)
  show ?case
  proof (cases "take_idx As rc")
    case (Inl e')
    with Cons.prems take_idx_error [OF Inl] show ?thesis by auto
  next
    case Ac: (Inr Ac)
    show ?thesis
    proof (cases "take_idx bs rc")
      case (Inl e')
      with Cons.prems Ac take_idx_error [OF Inl] show ?thesis by auto
    next
      case (Inr bc)
      with Cons.prems Ac have "\<exists>fv'. vertices_loop solve A b n As bs rcs fv' = Inl e"
        by (auto split: sum.splits option.splits)
      with Cons.IH show ?thesis by auto
    qed
  qed
qed simp


lemma try_body_Some:
  assumes "try_body solve A b n Ac bc = Inr (Some x)"
  shows "list_all (\<lambda>v. 0 \<le> v) x" and "length x = ncols A"
    and "\<exists>ts. np_le (map (\<lambda>r. inner r x) (rows A)) (map (\<lambda>v. v + 1 / 10 ^ 10) b) = Inr ts
           \<and> np_all ts"
  using assms
  by (auto simp: try_body_def Let_def np_all_def matvec_def list_all_iff
           split: sum.splits if_splits)

lemma vertices_loop_mem:
  "vertices_loop solve A b n As bs rcs fv = Inr vs \<Longrightarrow> x \<in> set vs \<Longrightarrow>
     x \<in> set fv \<or> (\<exists>Ac bc. try_body solve A b n Ac bc = Inr (Some x))"
proof (induction rcs arbitrary: fv)
  case (Cons rc rcs)
  from Cons.prems(1) obtain Ac bc where sel: "take_idx As rc = Inr Ac" "take_idx bs rc = Inr bc"
    by (auto split: sum.splits)
  show ?case
  proof (cases "try_body solve A b n Ac bc")
    case (Inl e)
    with Cons.prems sel have "vertices_loop solve A b n As bs rcs fv = Inr vs" by simp
    from Cons.IH [OF this Cons.prems(2)] show ?thesis .
  next
    case (Inr r)
    show ?thesis
    proof (cases r)
      case None
      with Inr Cons.prems sel have "vertices_loop solve A b n As bs rcs fv = Inr vs" by simp
      from Cons.IH [OF this Cons.prems(2)] show ?thesis .
    next
      case (Some y)
      with Inr Cons.prems sel have "vertices_loop solve A b n As bs rcs (fv @ [y]) = Inr vs"
        by simp
      from Cons.IH [OF this Cons.prems(2)] Some Inr show ?thesis by auto
    qed
  qed
qed simp


lemma get_vertices_Some:
  assumes "get_vertices solve A b = Inr vs" and "x \<in> set vs"
  shows "\<exists>Ac bc. try_body solve A b (shape1 A) Ac bc = Inr (Some x)"
  using assms unfolding get_vertices_def Let_def by (fastforce dest: vertices_loop_mem)

lemma get_vertices_length:
  assumes "get_vertices solve A b = Inr vs" and "x \<in> set vs"
  shows "length x = shape1 A"
proof -
  from get_vertices_Some [OF assms] obtain Ac bc
    where tb: "try_body solve A b (shape1 A) Ac bc = Inr (Some x)" by blast
  from try_body_Some(2) [OF tb] show ?thesis by (simp add: shape1_def)
qed

subsection \<open>The objective loop and the minimum\<close>

lemma inner_uminus: "inner (map uminus c) x = - inner c x"
proof -
  have "sum_list (map2 (*) (map uminus c) x) = - sum_list (map2 (*) c x)"
    by (induction c arbitrary: x) (simp, case_tac x, simp_all)
  then show ?thesis by (simp add: inner_def)
qed

lemma objective_loop_ok:
  "(\<And>v. v \<in> set vs \<Longrightarrow> length v = length c) \<Longrightarrow>
     objective_loop c vs ov = Inr (ov @ map (\<lambda>x. - inner c x) vs)"
  by (induction vs arbitrary: ov) (simp_all add: np_dot_def inner_uminus)


lemma np_min_nonempty: "xs \<noteq> [] \<Longrightarrow> np_min xs = Inr (Min (set xs))"
  by (cases xs) (simp_all add: Min.set_eq_fold [symmetric])

lemma np_min_error: "np_min xs = Inl e \<Longrightarrow> e = ValueError \<and> xs = []"
  by (cases xs) simp_all


subsection \<open>Errors that leave the two functions\<close>

lemma row_index_combinations_bound:
  assumes "rc \<in> set (row_index_combinations m n)" and "i \<in> set rc"
  shows "i < m + n"
proof -
  from assms(1) have "set rc \<subseteq> {0..<m + n}"
    by (simp add: row_index_combinations_def set_combinations subseq_upt_iff)
  with assms(2) show ?thesis by auto
qed


lemma get_vertices_error:
  assumes "get_vertices solve A b = Inl e"
  shows "e = IndexError \<and> length b < shape0 A"
proof -
  let ?As = "np_vstack (rows A) (np_eye (shape1 A))"
  let ?bs = "np_hstack b (np_zeros (shape1 A))"
  from assms have "vertices_loop solve A b (shape1 A) ?As ?bs
      (row_index_combinations (shape0 A) (shape1 A)) [] = Inl e"
    by (simp add: get_vertices_def Let_def)
  from vertices_loop_error [OF this] obtain rc i where
    e: "e = IndexError" and rc: "rc \<in> set (row_index_combinations (shape0 A) (shape1 A))"
    and i: "i \<in> set rc" and len: "length ?As \<le> i \<or> length ?bs \<le> i"
    by blast
  have "i < shape0 A + shape1 A" by (rule row_index_combinations_bound [OF rc i])
  moreover have "length ?As = shape0 A + shape1 A"
    by (simp add: np_vstack_def np_eye_def shape0_def)
  moreover have "length ?bs = length b + shape1 A"
    by (simp add: np_hstack_def np_zeros_def)
  ultimately have "length b < shape0 A" using len by linarith
  with e show ?thesis by simp
qed



subsection \<open>The functions on the store compute what the functions on values compute\<close>

lemma unchanged_refl: "unchanged h h"
  by (simp add: unchanged_def)

lemma unchanged_trans: "unchanged h h' \<Longrightarrow> unchanged h' h'' \<Longrightarrow> unchanged h h''"
proof -
  have t: "take (length xs) zs = xs"
    if "take (length xs) ys = xs" "take (length ys) zs = ys" "length xs \<le> length ys"
    for xs ys zs :: "'a list"
  proof -
    have "take (length xs) (take (length ys) zs) = xs" using that by simp
    then show ?thesis using that(3) by (simp add: min_def)
  qed
  assume "unchanged h h'" "unchanged h' h''"
  then show ?thesis unfolding unchanged_def using t [of "vecs h" "vecs h'" "vecs h''"]
      t [of "mats h" "mats h'" "mats h''"] by auto
qed

lemma unchanged_vec: "unchanged h h' \<Longrightarrow> a < length (vecs h) \<Longrightarrow> vecs h' ! a = vecs h ! a"
  unfolding unchanged_def by (metis nth_take)

lemma unchanged_mat: "unchanged h h' \<Longrightarrow> a < length (mats h) \<Longrightarrow> mats h' ! a = mats h ! a"
  unfolding unchanged_def by (metis nth_take)

lemma unchanged_length:
  "unchanged h h' \<Longrightarrow> length (vecs h) \<le> length (vecs h') \<and> length (mats h) \<le> length (mats h')"
  by (simp add: unchanged_def)

lemma new_vec_simps:
  "fst (new_vec h v) = length (vecs h)"
  "vecs (snd (new_vec h v)) = vecs h @ [v]"
  "mats (snd (new_vec h v)) = mats h"
  by (simp_all add: new_vec_def)

lemma new_mat_simps:
  "fst (new_mat h M) = length (mats h)"
  "mats (snd (new_mat h M)) = mats h @ [M]"
  "vecs (snd (new_mat h M)) = vecs h"
  by (simp_all add: new_mat_def)

lemma snap_in_place_simps:
  "vecs (snap_in_place h x) = (vecs h)[x := snap_to_zero (vecs h ! x)]"
  "mats (snap_in_place h x) = mats h"
  by (simp_all add: snap_in_place_def)

lemma unchanged_new_vec: "unchanged h (snd (new_vec h v))"
  by (simp add: unchanged_def new_vec_simps)

lemma unchanged_new_mat: "unchanged h (snd (new_mat h M))"
  by (simp add: unchanged_def new_mat_simps)

lemma unchanged_snap_new: "unchanged h (snap_in_place (snd (new_vec h v)) (length (vecs h)))"
  by (simp add: unchanged_def new_vec_simps snap_in_place_simps)


lemma snap_new_reads:
  "vecs (snap_in_place (snd (new_vec h v)) (length (vecs h))) ! length (vecs h) = snap_to_zero v"
  "a < length (vecs h) \<Longrightarrow>
     vecs (snap_in_place (snd (new_vec h v)) (length (vecs h))) ! a = vecs h ! a"
  "mats (snap_in_place (snd (new_vec h v)) (length (vecs h))) = mats h"
  "length (vecs (snap_in_place (snd (new_vec h v)) (length (vecs h)))) = Suc (length (vecs h))"
  by (simp_all add: new_vec_simps snap_in_place_simps nth_append)

lemma try_body_store_unchanged: "unchanged h (snd (try_body_store solve A b n Ac bc h))"
  by (simp add: try_body_store_def Let_def split_def unchanged_refl unchanged_snap_new
           new_vec_simps split: sum.splits)

lemma try_body_store_result:
  assumes "A < length (mats h)" "b < length (vecs h)"
  shows "deref_opt (snd (try_body_store solve A b n Ac bc h))
            (fst (try_body_store solve A b n Ac bc h))
         = try_body solve (mats h ! A) (vecs h ! b) n (rows (mats h ! Ac)) (vecs h ! bc)"
  using assms
  by (simp add: try_body_store_def try_body_def deref_opt_def Let_def split_def snap_new_reads
           new_vec_simps
           split: sum.splits)

lemma try_body_store_addr:
  assumes "fst (try_body_store solve A b n Ac bc h) = Inr (Some x)"
  shows "x < length (vecs (snd (try_body_store solve A b n Ac bc h)))"
  using assms
  by (auto simp: try_body_store_def Let_def split_def snap_new_reads new_vec_simps
           split: sum.splits if_splits)


lemma vertices_loop_store_correct:
  assumes "A < length (mats h)" "b < length (vecs h)"
    and "As < length (mats h)" "bs < length (vecs h)"
    and "\<forall>a\<in>set fv. a < length (vecs h)"
  shows "unchanged h (snd (vertices_loop_store solve A b n As bs rcs fv h))
    \<and> deref_list (snd (vertices_loop_store solve A b n As bs rcs fv h))
         (fst (vertices_loop_store solve A b n As bs rcs fv h))
       = vertices_loop solve (mats h ! A) (vecs h ! b) n (rows (mats h ! As)) (vecs h ! bs) rcs
           (map ((!) (vecs h)) fv)
    \<and> (\<forall>as. fst (vertices_loop_store solve A b n As bs rcs fv h) = Inr as \<longrightarrow>
          (\<forall>a\<in>set as. a < length (vecs (snd (vertices_loop_store solve A b n As bs rcs fv h)))))"
  using assms
proof (induction rcs arbitrary: fv h)
  case Nil
  then show ?case by (simp add: unchanged_refl deref_list_def)
next
  case (Cons rc rcs)
  let ?L = "vertices_loop_store solve A b n As bs (rc # rcs) fv h"
  let ?P = "vertices_loop solve (mats h ! A) (vecs h ! b) n (rows (mats h ! As)) (vecs h ! bs)
      (rc # rcs) (map ((!) (vecs h)) fv)"
  show ?case
  proof (cases "take_idx (rows (mats h ! As)) rc")
    case (Inl e)
    then have "?L = (Inl e, h)" "?P = Inl e" by simp_all
    then show ?thesis by (simp add: unchanged_refl deref_list_def)
  next
    case Ac: (Inr Ac)
    let ?M = "\<lparr>ncols = ncols (mats h ! As), rows = Ac\<rparr>"
    define h1 where "h1 = snd (new_mat h ?M)"
    have h1: "vecs h1 = vecs h" "mats h1 = mats h @ [?M]" "unchanged h h1"
      by (simp_all add: h1_def new_mat_simps unchanged_new_mat)
    have nm: "new_mat h ?M = (length (mats h), h1)"
      by (simp add: h1_def new_mat_def)
    show ?thesis
    proof (cases "take_idx (vecs h ! bs) rc")
      case (Inl e)
      with Ac nm h1(1) have "?L = (Inl e, h1)" "?P = Inl e"
        by simp_all
      then show ?thesis using h1(3) by (simp add: deref_list_def)
    next
      case bc: (Inr bc)
      define h2 where "h2 = snd (new_vec h1 bc)"
      have h2: "vecs h2 = vecs h @ [bc]" "mats h2 = mats h @ [?M]" "unchanged h h2"
        using unchanged_trans [OF h1(3) unchanged_new_vec [of h1 bc]]
        by (simp_all add: h2_def new_vec_simps h1)
      have nv: "new_vec h1 bc = (length (vecs h), h2)"
        by (simp add: h2_def new_vec_def h1)
      have bc1: "take_idx (vecs h1 ! bs) rc = Inr bc" using bc h1(1) by simp
      let ?T = "try_body_store solve A b n (length (mats h)) (length (vecs h)) h2"
      define h3 where "h3 = snd ?T"
      have u23: "unchanged h2 h3" unfolding h3_def by (rule try_body_store_unchanged)
      have u3: "unchanged h h3" by (rule unchanged_trans [OF h2(3) u23])
      have val2: "A < length (mats h2)" "b < length (vecs h2)"
        using Cons.prems h2 by simp_all
      have "deref_opt h3 (fst ?T) =
          try_body solve (mats h2 ! A) (vecs h2 ! b) n (rows (mats h2 ! length (mats h)))
            (vecs h2 ! length (vecs h))"
        unfolding h3_def by (rule try_body_store_result [OF val2])
      then have T: "deref_opt h3 (fst ?T) = try_body solve (mats h ! A) (vecs h ! b) n Ac bc"
        using Cons.prems by (simp add: h2 nth_append)
      have val3: "A < length (mats h3)" "b < length (vecs h3)"
        "As < length (mats h3)" "bs < length (vecs h3)"
        using Cons.prems unchanged_length [OF u3] by simp_all
      have rd3: "mats h3 ! A = mats h ! A" "vecs h3 ! b = vecs h ! b"
        "mats h3 ! As = mats h ! As" "vecs h3 ! bs = vecs h ! bs"
        using Cons.prems unchanged_vec [OF u3] unchanged_mat [OF u3] by simp_all
      have fv3: "\<forall>a\<in>set fv. a < length (vecs h3)"
        using Cons.prems(5) unchanged_length [OF u3] by auto
      have mfv3: "map ((!) (vecs h3)) fv = map ((!) (vecs h)) fv"
        using Cons.prems(5) unchanged_vec [OF u3] by simp
      obtain t where T': "?T = (t, h3)" and t: "fst ?T = t"
        by (simp add: h3_def prod_eq_iff)
      have L: "?L = (case t of
                Inr (Some x) \<Rightarrow> vertices_loop_store solve A b n As bs rcs (fv @ [x]) h3
              | Inr None \<Rightarrow> vertices_loop_store solve A b n As bs rcs fv h3
              | Inl e \<Rightarrow> vertices_loop_store solve A b n As bs rcs fv h3)"
        using Ac bc1 nm nv T' by (simp split: sum.splits option.splits)
      show ?thesis
      proof (cases "fst ?T")
        case (Inl e)
        then have L': "?L = vertices_loop_store solve A b n As bs rcs fv h3"
          using L t by simp
        from Inl T have "try_body solve (mats h ! A) (vecs h ! b) n Ac bc = Inl e"
          by (simp add: deref_opt_def)
        then have P': "?P = vertices_loop solve (mats h ! A) (vecs h ! b) n (rows (mats h ! As))
            (vecs h ! bs) rcs (map ((!) (vecs h)) fv)"
          using Ac bc by simp
        from Cons.IH [OF val3 fv3] u3 show ?thesis
          unfolding L' P' rd3 mfv3 using unchanged_trans by blast
      next
        case (Inr r)
        show ?thesis
        proof (cases r)
          case None
          with Inr have L': "?L = vertices_loop_store solve A b n As bs rcs fv h3"
            using L t by simp
          from None Inr T have "try_body solve (mats h ! A) (vecs h ! b) n Ac bc = Inr None"
            by (simp add: deref_opt_def)
          then have P': "?P = vertices_loop solve (mats h ! A) (vecs h ! b) n
              (rows (mats h ! As)) (vecs h ! bs) rcs (map ((!) (vecs h)) fv)"
            using Ac bc by simp
          from Cons.IH [OF val3 fv3] u3 show ?thesis
            unfolding L' P' rd3 mfv3 using unchanged_trans by blast
        next
          case (Some x)
          with Inr have L': "?L = vertices_loop_store solve A b n As bs rcs (fv @ [x]) h3"
            using L t by simp
          from Some Inr have x: "x < length (vecs h3)"
            unfolding h3_def by (intro try_body_store_addr) simp
          from Some Inr T have
            "try_body solve (mats h ! A) (vecs h ! b) n Ac bc = Inr (Some (vecs h3 ! x))"
            by (simp add: deref_opt_def)
          then have P': "?P = vertices_loop solve (mats h ! A) (vecs h ! b) n
              (rows (mats h ! As)) (vecs h ! bs) rcs (map ((!) (vecs h3)) (fv @ [x]))"
            using Ac bc by (simp add: mfv3)
          have fvx: "\<forall>a\<in>set (fv @ [x]). a < length (vecs h3)" using fv3 x by simp
          from Cons.IH [OF val3 fvx] u3 show ?thesis
            unfolding L' P' rd3 using unchanged_trans by blast
        qed
      qed
    qed
  qed
qed


lemma get_vertices_store_correct:
  assumes "A < length (mats h)" "b < length (vecs h)"
  shows "unchanged h (snd (get_vertices_store solve A b h))
    \<and> deref_list (snd (get_vertices_store solve A b h)) (fst (get_vertices_store solve A b h))
        = get_vertices solve (mats h ! A) (vecs h ! b)
    \<and> (\<forall>as. fst (get_vertices_store solve A b h) = Inr as \<longrightarrow>
          (\<forall>a\<in>set as. a < length (vecs (snd (get_vertices_store solve A b h)))))"
proof -
  let ?m = "shape0 (mats h ! A)" and ?n = "shape1 (mats h ! A)"
  let ?M = "\<lparr>ncols = ?n, rows = np_vstack (rows (mats h ! A)) (np_eye ?n)\<rparr>"
  let ?v = "np_hstack (vecs h ! b) (np_zeros ?n)"
  define h1 where "h1 = snd (new_mat h ?M)"
  define h2 where "h2 = snd (new_vec h1 ?v)"
  have h1: "vecs h1 = vecs h" "mats h1 = mats h @ [?M]" "unchanged h h1"
    by (simp_all add: h1_def new_mat_simps unchanged_new_mat)
  have nm: "new_mat h ?M = (length (mats h), h1)" by (simp add: h1_def new_mat_def)
  have h2: "vecs h2 = vecs h @ [?v]" "mats h2 = mats h @ [?M]" "unchanged h h2"
    using unchanged_trans [OF h1(3) unchanged_new_vec [of h1 ?v]]
    by (simp_all add: h2_def new_vec_simps h1)
  have nv: "new_vec h1 (np_hstack (vecs h1 ! b) (np_zeros ?n)) = (length (vecs h), h2)"
    by (simp add: h2_def new_vec_def h1)
  let ?L = "vertices_loop_store solve A b ?n (length (mats h)) (length (vecs h))
      (row_index_combinations ?m ?n) [] h2"
  have G: "get_vertices_store solve A b h = ?L"
    using nm nv by (simp add: get_vertices_store_def Let_def)
  have val: "A < length (mats h2)" "b < length (vecs h2)"
    "length (mats h) < length (mats h2)" "length (vecs h) < length (vecs h2)"
    "\<forall>a\<in>set []. a < length (vecs h2)"
    using assms by (simp_all add: h2)
  have rd: "mats h2 ! A = mats h ! A" "vecs h2 ! b = vecs h ! b"
    "rows (mats h2 ! length (mats h)) = np_vstack (rows (mats h ! A)) (np_eye ?n)"
    "vecs h2 ! length (vecs h) = ?v"
    using assms by (simp_all add: h2 nth_append)
  have P: "get_vertices solve (mats h ! A) (vecs h ! b) =
      vertices_loop solve (mats h ! A) (vecs h ! b) ?n
        (np_vstack (rows (mats h ! A)) (np_eye ?n)) ?v (row_index_combinations ?m ?n) []"
    by (simp add: get_vertices_def Let_def)
  from vertices_loop_store_correct [OF val, of solve ?n "row_index_combinations ?m ?n"]
  show ?thesis unfolding G P rd using h2(3) unchanged_trans by auto
qed

lemma objective_loop_store_eq:
  "objective_loop_store h c fv ov = objective_loop (vecs h ! c) (map ((!) (vecs h)) fv) ov"
  by (induction fv arbitrary: ov) (simp_all split: sum.splits)

lemma LP_exhaustive_search_store_correct:
  assumes "A < length (mats h)" "b < length (vecs h)" "c < length (vecs h)"
  shows "unchanged h (snd (LP_exhaustive_search_store solve A b c h))"
    and "fst (LP_exhaustive_search_store solve A b c h)
         = LP_exhaustive_search solve (mats h ! A) (vecs h ! b) (vecs h ! c)"
proof -
  obtain r h1 where G: "get_vertices_store solve A b h = (r, h1)" by (cases "get_vertices_store solve A b h")
  from get_vertices_store_correct [OF assms(1,2), of solve] G
  have u: "unchanged h h1"
    and d: "deref_list h1 r = get_vertices solve (mats h ! A) (vecs h ! b)"
    by simp_all
  have c: "vecs h1 ! c = vecs h ! c" by (rule unchanged_vec [OF u assms(3)])
  have s: "snd (LP_exhaustive_search_store solve A b c h) = h1"
    using G by (simp add: LP_exhaustive_search_store_def split: sum.splits)
  show "unchanged h (snd (LP_exhaustive_search_store solve A b c h))" using s u by simp
  show "fst (LP_exhaustive_search_store solve A b c h)
         = LP_exhaustive_search solve (mats h ! A) (vecs h ! b) (vecs h ! c)"
  proof (cases r)
    case (Inl e)
    with d have "get_vertices solve (mats h ! A) (vecs h ! b) = Inl e"
      by (simp add: deref_list_def)
    with G Inl show ?thesis
      by (simp add: LP_exhaustive_search_store_def LP_exhaustive_search_def)
  next
    case (Inr fv)
    with d have "get_vertices solve (mats h ! A) (vecs h ! b) = Inr (map ((!) (vecs h1)) fv)"
      by (simp add: deref_list_def)
    with G Inr c show ?thesis
      by (simp add: LP_exhaustive_search_store_def LP_exhaustive_search_def
            objective_loop_store_eq split: sum.splits)
  qed
qed

subsection \<open>One subsystem per combination\<close>

lemma try_body_store_mats: "mats (snd (try_body_store solve A b n Ac bc h)) = mats h"
  by (simp add: try_body_store_def Let_def split_def new_vec_simps snap_in_place_simps
           split: sum.splits)

lemma vertices_loop_store_count:
  assumes "As < length (mats h)" "bs < length (vecs h)"
    and "\<forall>rc\<in>set rcs. \<forall>i\<in>set rc. i < length (rows (mats h ! As)) \<and> i < length (vecs h ! bs)"
  shows "length (mats (snd (vertices_loop_store solve A b n As bs rcs fv h)))
         = length (mats h) + length rcs"
  using assms
proof (induction rcs arbitrary: fv h)
  case Nil
  then show ?case by simp
next
  case (Cons rc rcs)
  let ?Ac = "map ((!) (rows (mats h ! As))) rc"
  let ?bc = "map ((!) (vecs h ! bs)) rc"
  let ?M = "\<lparr>ncols = ncols (mats h ! As), rows = ?Ac\<rparr>"
  have Ac: "take_idx (rows (mats h ! As)) rc = Inr ?Ac"
    using Cons.prems(3) by (intro take_idx_ok) simp
  define h1 where "h1 = snd (new_mat h ?M)"
  have h1: "vecs h1 = vecs h" "mats h1 = mats h @ [?M]"
    by (simp_all add: h1_def new_mat_simps)
  have nm: "new_mat h ?M = (length (mats h), h1)" by (simp add: h1_def new_mat_def)
  have "take_idx (vecs h ! bs) rc = Inr ?bc"
    using Cons.prems(3) by (intro take_idx_ok) simp
  then have bc: "take_idx (vecs h1 ! bs) rc = Inr ?bc" by (simp add: h1)
  define h2 where "h2 = snd (new_vec h1 ?bc)"
  have h2: "vecs h2 = vecs h @ [?bc]" "mats h2 = mats h @ [?M]"
    by (simp_all add: h2_def new_vec_simps h1)
  have nv: "new_vec h1 ?bc = (length (vecs h), h2)" by (simp add: h2_def new_vec_def h1)
  let ?T = "try_body_store solve A b n (length (mats h)) (length (vecs h)) h2"
  define h3 where "h3 = snd ?T"
  obtain t where T': "?T = (t, h3)" by (simp add: h3_def prod_eq_iff)
  have m3: "mats h3 = mats h @ [?M]" unfolding h3_def try_body_store_mats by (rule h2(2))
  have u23: "unchanged h2 h3" unfolding h3_def by (rule try_body_store_unchanged)
  have v3: "vecs h3 ! bs = vecs h ! bs" "bs < length (vecs h3)"
    using unchanged_vec [OF u23, of bs] unchanged_length [OF u23] Cons.prems(2)
    by (simp_all add: h2 nth_append)
  have a3: "mats h3 ! As = mats h ! As" "As < length (mats h3)"
    using Cons.prems(1) by (simp_all add: m3 nth_append)
  have p3: "\<forall>rc\<in>set rcs. \<forall>i\<in>set rc.
      i < length (rows (mats h3 ! As)) \<and> i < length (vecs h3 ! bs)"
    using Cons.prems(3) by (simp add: v3 a3)
  have IH: "length (mats (snd (vertices_loop_store solve A b n As bs rcs fv' h3)))
      = length (mats h) + 1 + length rcs" for fv'
    using Cons.IH [OF a3(2) v3(2) p3, of fv'] by (simp add: m3)
  have "\<exists>fv'. vertices_loop_store solve A b n As bs (rc # rcs) fv h
      = vertices_loop_store solve A b n As bs rcs fv' h3"
    using Ac bc nm nv T' by (auto split: sum.splits option.splits)
  then show ?case using IH by auto
qed

lemma get_vertices_store_count:
  assumes "shape0 (mats h ! A) \<le> length (vecs h ! b)"
  shows "length (mats (snd (get_vertices_store solve A b h)))
     = length (mats h) + 1
       + ((shape0 (mats h ! A) + shape1 (mats h ! A)) choose shape1 (mats h ! A))"
proof -
  let ?m = "shape0 (mats h ! A)" and ?n = "shape1 (mats h ! A)"
  let ?M = "\<lparr>ncols = ?n, rows = np_vstack (rows (mats h ! A)) (np_eye ?n)\<rparr>"
  let ?v = "np_hstack (vecs h ! b) (np_zeros ?n)"
  define h1 where "h1 = snd (new_mat h ?M)"
  define h2 where "h2 = snd (new_vec h1 ?v)"
  have h1: "vecs h1 = vecs h" "mats h1 = mats h @ [?M]"
    by (simp_all add: h1_def new_mat_simps)
  have nm: "new_mat h ?M = (length (mats h), h1)" by (simp add: h1_def new_mat_def)
  have h2: "vecs h2 = vecs h @ [?v]" "mats h2 = mats h @ [?M]"
    by (simp_all add: h2_def new_vec_simps h1)
  have nv: "new_vec h1 (np_hstack (vecs h1 ! b) (np_zeros ?n)) = (length (vecs h), h2)"
    by (simp add: h2_def new_vec_def h1)
  have G: "get_vertices_store solve A b h =
      vertices_loop_store solve A b ?n (length (mats h)) (length (vecs h))
        (row_index_combinations ?m ?n) [] h2"
    using nm nv by (simp add: get_vertices_store_def Let_def)
  have val: "length (mats h) < length (mats h2)" "length (vecs h) < length (vecs h2)"
    by (simp_all add: h2)
  have len: "length (rows (mats h2 ! length (mats h))) = ?m + ?n"
    "length (vecs h2 ! length (vecs h)) = length (vecs h ! b) + ?n"
    by (simp_all add: h2 np_vstack_def np_eye_def np_hstack_def np_zeros_def shape0_def)
  have p: "\<forall>rc\<in>set (row_index_combinations ?m ?n). \<forall>i\<in>set rc.
      i < length (rows (mats h2 ! length (mats h))) \<and> i < length (vecs h2 ! length (vecs h))"
    unfolding len using row_index_combinations_bound [of _ ?m ?n] assms by fastforce
  from vertices_loop_store_count [OF val p] show ?thesis
    unfolding G by (simp add: h2 row_index_combinations_def length_combinations)
qed

subsection \<open>Evaluation at concrete inputs\<close>

lemmas eval_defs = LP_exhaustive_search_def get_vertices_def shape0_def shape1_def
  row_index_combinations_def np_vstack_def np_hstack_def np_eye_def np_zeros_def try_body_def
  linalg_solve_exact_def slice_cols_def snap_to_zero_def np_all_def matvec_def np_le_def
  np_dot_def inner_def del_col_def replace_col_def upt_rec numeral_eq_Suc

lemmas store_eval_defs = LP_exhaustive_search_store_def get_vertices_store_def try_body_store_def
  new_vec_def new_mat_def snap_in_place_def

text \<open>
  Claim C4. The row combinations that \<open>get_vertices\<close> iterates over are exactly the
  strictly increasing index lists of length \<open>n\<close> below \<open>m + n\<close>, each once; their
  number is the binomial coefficient of \<open>m + n\<close> over \<open>n\<close>, which is 646646 for twelve
  constraints and ten variables. When \<open>b\<close> has at least \<open>m\<close> entries the loop runs for
  every one of them: besides the stacked system, \<open>get_vertices\<close> creates one array
  \<open>A_constraints\<close> per combination.
\<close>

theorem row_index_combinations_count:
  "length (row_index_combinations m n) = (m + n) choose n
  \<and> distinct (row_index_combinations m n)
  \<and> set (row_index_combinations m n) =
      {rc. length rc = n \<and> sorted_wrt (<) rc \<and> set rc \<subseteq> {0..<m + n}}
  \<and> length (row_index_combinations 12 10) = 646646
  \<and> (A < length (mats h) \<and> b < length (vecs h) \<and> shape0 (mats h ! A) \<le> length (vecs h ! b)
      \<longrightarrow> length (mats (snd (get_vertices_store solve A b h)))
          = length (mats h) + 1
            + ((shape0 (mats h ! A) + shape1 (mats h ! A)) choose shape1 (mats h ! A)))"
proof -
  have "length (row_index_combinations m n) = (m + n) choose n" for m n
    by (simp add: row_index_combinations_def length_combinations)
  moreover have "distinct (row_index_combinations m n)"
    by (simp add: row_index_combinations_def distinct_combinations)
  moreover have "set (row_index_combinations m n) =
      {rc. length rc = n \<and> sorted_wrt (<) rc \<and> set rc \<subseteq> {0..<m + n}}"
    unfolding row_index_combinations_def set_combinations subseq_upt_iff by blast
  moreover have "length (mats (snd (get_vertices_store solve A b h)))
          = length (mats h) + 1
            + ((shape0 (mats h ! A) + shape1 (mats h ! A)) choose shape1 (mats h ! A))"
    if "shape0 (mats h ! A) \<le> length (vecs h ! b)"
    using that by (rule get_vertices_store_count)
  ultimately show ?thesis using binomial_22_10 by simp
qed

theorem row_index_combinations_count_witness:
  "row_index_combinations 2 2 = [[0, 1], [0, 2], [0, 3], [1, 2], [1, 3], [2, 3]]
   \<and> length (row_index_combinations 2 2) = (2 + 2) choose 2
   \<and> (0::nat) < length (mats \<lparr>vecs = [[4, 2]], mats = [\<lparr>ncols = 2, rows = [[1, 1], [1, 0]]\<rparr>]\<rparr>) \<and> (0::nat) < length (vecs \<lparr>vecs = [[4, 2]], mats = [\<lparr>ncols = 2, rows = [[1, 1], [1, 0]]\<rparr>]\<rparr>)
   \<and> shape0 (mats \<lparr>vecs = [[4, 2]], mats = [\<lparr>ncols = 2, rows = [[1, 1], [1, 0]]\<rparr>]\<rparr> ! 0) \<le> length (vecs \<lparr>vecs = [[4, 2]], mats = [\<lparr>ncols = 2, rows = [[1, 1], [1, 0]]\<rparr>]\<rparr> ! 0)
   \<and> length (mats (snd (get_vertices_store linalg_solve_exact 0 0 \<lparr>vecs = [[4, 2]], mats = [\<lparr>ncols = 2, rows = [[1, 1], [1, 0]]\<rparr>]\<rparr>)))
       = length (mats \<lparr>vecs = [[4, 2]], mats = [\<lparr>ncols = 2, rows = [[1, 1], [1, 0]]\<rparr>]\<rparr>) + 1 + ((shape0 (mats \<lparr>vecs = [[4, 2]], mats = [\<lparr>ncols = 2, rows = [[1, 1], [1, 0]]\<rparr>]\<rparr> ! 0) + shape1 (mats \<lparr>vecs = [[4, 2]], mats = [\<lparr>ncols = 2, rows = [[1, 1], [1, 0]]\<rparr>]\<rparr> ! 0)) choose shape1 (mats \<lparr>vecs = [[4, 2]], mats = [\<lparr>ncols = 2, rows = [[1, 1], [1, 0]]\<rparr>]\<rparr> ! 0))
   \<and> length (mats (snd (get_vertices_store linalg_solve_exact 0 0 \<lparr>vecs = [[4, 2]], mats = [\<lparr>ncols = 2, rows = [[1, 1], [1, 0]]\<rparr>]\<rparr>))) = 8"
proof -
  have 1: "row_index_combinations 2 2 = [[0, 1], [0, 2], [0, 3], [1, 2], [1, 3], [2, 3]]"
    by (simp add: eval_defs)
  have 2: "(0::nat) < length (mats \<lparr>vecs = [[4, 2]], mats = [\<lparr>ncols = 2, rows = [[1, 1], [1, 0]]\<rparr>]\<rparr>) \<and> (0::nat) < length (vecs \<lparr>vecs = [[4, 2]], mats = [\<lparr>ncols = 2, rows = [[1, 1], [1, 0]]\<rparr>]\<rparr>)
     \<and> shape0 (mats \<lparr>vecs = [[4, 2]], mats = [\<lparr>ncols = 2, rows = [[1, 1], [1, 0]]\<rparr>]\<rparr> ! 0) \<le> length (vecs \<lparr>vecs = [[4, 2]], mats = [\<lparr>ncols = 2, rows = [[1, 1], [1, 0]]\<rparr>]\<rparr> ! 0)"
    by (simp add: shape0_def)
  have 3: "length (mats (snd (get_vertices_store linalg_solve_exact 0 0 \<lparr>vecs = [[4, 2]], mats = [\<lparr>ncols = 2, rows = [[1, 1], [1, 0]]\<rparr>]\<rparr>))) = 8"
    by (simp add: eval_defs store_eval_defs)
  note t = row_index_combinations_count [where m = 2 and n = 2 and solve = linalg_solve_exact
      and A = 0 and b = 0 and h = "\<lparr>vecs = [[4, 2]], mats = [\<lparr>ncols = 2, rows = [[1, 1], [1, 0]]\<rparr>]\<rparr>"]
  from t have 4: "length (row_index_combinations 2 2) = (2 + 2) choose 2" by blast
  from t 2 have 5: "length (mats (snd (get_vertices_store linalg_solve_exact 0 0 \<lparr>vecs = [[4, 2]], mats = [\<lparr>ncols = 2, rows = [[1, 1], [1, 0]]\<rparr>]\<rparr>)))
       = length (mats \<lparr>vecs = [[4, 2]], mats = [\<lparr>ncols = 2, rows = [[1, 1], [1, 0]]\<rparr>]\<rparr>) + 1 + ((shape0 (mats \<lparr>vecs = [[4, 2]], mats = [\<lparr>ncols = 2, rows = [[1, 1], [1, 0]]\<rparr>]\<rparr> ! 0) + shape1 (mats \<lparr>vecs = [[4, 2]], mats = [\<lparr>ncols = 2, rows = [[1, 1], [1, 0]]\<rparr>]\<rparr> ! 0)) choose shape1 (mats \<lparr>vecs = [[4, 2]], mats = [\<lparr>ncols = 2, rows = [[1, 1], [1, 0]]\<rparr>]\<rparr> ! 0))"
    by blast
  from 1 2 3 4 5 show ?thesis by blast
qed



text \<open>
  Claim C5. When \<open>get_vertices\<close> returns a non-empty list of vertices (and \<open>c\<close> has
  \<open>n\<close> entries), \<open>LP_exhaustive_search\<close> returns the least of the values \<open>-c\<cdot>x\<close>
  over the returned vertices \<open>x\<close>.
\<close>

theorem LP_exhaustive_search_minimum:
  assumes "get_vertices solve A b = Inr vs" and "vs \<noteq> []" and "length c = shape1 A"
  shows "LP_exhaustive_search solve A b c = Inr (Min ((\<lambda>x. - inner c x) ` set vs))"
proof -
  have len: "length v = length c" if "v \<in> set vs" for v
    using get_vertices_length [OF assms(1) that] assms(3) by simp
  have "objective_loop c vs [] = Inr (map (\<lambda>x. - inner c x) vs)"
    using objective_loop_ok [of vs c "[]"] len by simp
  moreover have "np_min (map (\<lambda>x. - inner c x) vs) = Inr (Min ((\<lambda>x. - inner c x) ` set vs))"
    using assms(2) by (simp add: np_min_nonempty)
  ultimately show ?thesis using assms(1) by (simp add: LP_exhaustive_search_def)
qed



theorem LP_exhaustive_search_minimum_witness:
  "get_vertices linalg_solve_exact \<lparr>ncols = 2, rows = [[1, 1], [1, 0]]\<rparr> [4, 2]
     = Inr [[2, 2], [0, 4], [2, 0], [0, 0]]
   \<and> [[2, 2], [0, 4], [2, 0], [0::real, 0]] \<noteq> []
   \<and> length [3::real, 2] = shape1 \<lparr>ncols = 2, rows = [[1, 1], [1, 0]]\<rparr>
   \<and> LP_exhaustive_search linalg_solve_exact \<lparr>ncols = 2, rows = [[1, 1], [1, 0]]\<rparr> [4, 2] [3, 2]
     = Inr (Min ((\<lambda>x. - inner [3, 2] x) ` set [[2, 2], [0, 4], [2, 0], [0, 0]]))
   \<and> Min ((\<lambda>x. - inner [3, 2] x) ` set [[2, 2], [0, 4], [2, 0], [0, 0]]) = - 10"
proof -
  have 1: "get_vertices linalg_solve_exact \<lparr>ncols = 2, rows = [[1, 1], [1, 0]]\<rparr> [4, 2]
     = Inr [[2, 2], [0, 4], [2, 0], [0, 0]]"
    by (simp add: eval_defs)
  have 2: "[[2, 2], [0, 4], [2, 0], [0::real, 0]] \<noteq> []" by simp
  have 3: "length [3::real, 2] = shape1 \<lparr>ncols = 2, rows = [[1, 1], [1, 0]]\<rparr>"
    by (simp add: shape1_def)
  have 4: "Min ((\<lambda>x. - inner [3, 2] x) ` set [[2, 2], [0, 4], [2, 0], [0, 0]]) = - 10"
    by (simp add: inner_def)
  from LP_exhaustive_search_minimum [OF 1 2 3] 1 2 3 4 show ?thesis by blast
qed

text \<open>
  Whenever \<open>get_vertices\<close> returns the empty list, \<open>LP_exhaustive_search\<close> ends in
  the \<open>ValueError\<close> that \<open>np.min\<close> raises on an empty list.
\<close>

lemma LP_exhaustive_search_no_vertex:
  "get_vertices solve A b = Inr [] \<Longrightarrow> LP_exhaustive_search solve A b c = Inl ValueError"
  by (simp add: LP_exhaustive_search_def)

text \<open>
  Claim C1 (the source's behaviour). For the infeasible problem with the single
  constraint \<open>0 \<cdot> x \<le> -1\<close> no vertex survives, and \<open>LP_exhaustive_search\<close> ends in the
  \<open>ValueError\<close> of \<open>np.min\<close> on an empty list, not in a no-solution outcome.
\<close>

theorem LP_exhaustive_search_empty_min:
  "get_vertices linalg_solve_exact \<lparr>ncols = 1, rows = [[0]]\<rparr> [- 1] = Inr []
   \<and> LP_exhaustive_search linalg_solve_exact \<lparr>ncols = 1, rows = [[0]]\<rparr> [- 1] [1] = Inl ValueError"
proof -
  have "get_vertices linalg_solve_exact \<lparr>ncols = 1, rows = [[0]]\<rparr> [- 1] = Inr []"
    by (simp add: eval_defs)
  then show ?thesis using LP_exhaustive_search_no_vertex by blast
qed







text \<open>
  Claim C9. Whatever exception the body of the \<open>try\<close> raises for a combination
  (the solve, the snap to zero, the feasibility test with its shape checks),
  \<open>get_vertices\<close> returns what the loop returns on the enumeration without that
  combination. When \<open>b\<close> has at least as many entries as \<open>A\<close> has rows the function
  returns a list; the only error that can leave it is the \<open>IndexError\<close> of the row
  selection in front of the \<open>try\<close>, for a \<open>b\<close> that is too short.
\<close>

theorem try_body_exceptions_suppressed:
  "(row_index_combinations (shape0 A) (shape1 A) = pre @ row_combo # post
      \<and> take_idx (np_vstack (rows A) (np_eye (shape1 A))) row_combo = Inr A_constraints
      \<and> take_idx (np_hstack b (np_zeros (shape1 A))) row_combo = Inr b_constraints
      \<and> try_body solve A b (shape1 A) A_constraints b_constraints = Inl e
    \<longrightarrow> get_vertices solve A b =
          vertices_loop solve A b (shape1 A) (np_vstack (rows A) (np_eye (shape1 A)))
            (np_hstack b (np_zeros (shape1 A))) (pre @ post) [])
   \<and> (shape0 A \<le> length b \<longrightarrow> (\<exists>vs. get_vertices solve A b = Inr vs))
   \<and> (get_vertices solve A b = Inl e' \<longrightarrow> e' = IndexError \<and> length b < shape0 A)"
proof (intro conjI impI)
  assume a: "row_index_combinations (shape0 A) (shape1 A) = pre @ row_combo # post
      \<and> take_idx (np_vstack (rows A) (np_eye (shape1 A))) row_combo = Inr A_constraints
      \<and> take_idx (np_hstack b (np_zeros (shape1 A))) row_combo = Inr b_constraints
      \<and> try_body solve A b (shape1 A) A_constraints b_constraints = Inl e"
  then have "vertices_loop solve A b (shape1 A) (np_vstack (rows A) (np_eye (shape1 A)))
        (np_hstack b (np_zeros (shape1 A))) (pre @ row_combo # post) [] =
      vertices_loop solve A b (shape1 A) (np_vstack (rows A) (np_eye (shape1 A)))
        (np_hstack b (np_zeros (shape1 A))) (pre @ post) []"
    by (intro vertices_loop_skip) blast+
  with a show "get_vertices solve A b =
      vertices_loop solve A b (shape1 A) (np_vstack (rows A) (np_eye (shape1 A)))
        (np_hstack b (np_zeros (shape1 A))) (pre @ post) []"
    by (simp add: get_vertices_def Let_def)
next
  assume "shape0 A \<le> length b"
  then show "\<exists>vs. get_vertices solve A b = Inr vs"
    using get_vertices_error [of solve A b] by (cases "get_vertices solve A b") auto
next
  assume "get_vertices solve A b = Inl e'"
  then show "e' = IndexError" and "length b < shape0 A"
    using get_vertices_error by blast+
qed


theorem try_body_exceptions_suppressed_witness:
  "row_index_combinations (shape0 \<lparr>ncols = 1, rows = [[1], [1]]\<rparr>)
      (shape1 \<lparr>ncols = 1, rows = [[1], [1]]\<rparr>) = [] @ [0] # [[1], [2]]
   \<and> take_idx (np_vstack (rows \<lparr>ncols = 1, rows = [[1], [1]]\<rparr>)
         (np_eye (shape1 \<lparr>ncols = 1, rows = [[1], [1]]\<rparr>))) [0] = Inr [[1]]
   \<and> take_idx (np_hstack [5, 7, 9] (np_zeros (shape1 \<lparr>ncols = 1, rows = [[1], [1]]\<rparr>))) [0]
       = Inr [5]
   \<and> try_body linalg_solve_exact \<lparr>ncols = 1, rows = [[1], [1]]\<rparr> [5, 7, 9]
         (shape1 \<lparr>ncols = 1, rows = [[1], [1]]\<rparr>) [[1]] [5] = Inl ValueError
   \<and> get_vertices linalg_solve_exact \<lparr>ncols = 1, rows = [[1], [1]]\<rparr> [5, 7, 9] =
       vertices_loop linalg_solve_exact \<lparr>ncols = 1, rows = [[1], [1]]\<rparr> [5, 7, 9]
         (shape1 \<lparr>ncols = 1, rows = [[1], [1]]\<rparr>)
         (np_vstack (rows \<lparr>ncols = 1, rows = [[1], [1]]\<rparr>)
            (np_eye (shape1 \<lparr>ncols = 1, rows = [[1], [1]]\<rparr>)))
         (np_hstack [5, 7, 9] (np_zeros (shape1 \<lparr>ncols = 1, rows = [[1], [1]]\<rparr>)))
         ([] @ [[1], [2]]) []
   \<and> shape0 \<lparr>ncols = 1, rows = [[1], [1]]\<rparr> \<le> length [5::real, 7, 9]
   \<and> get_vertices linalg_solve_exact \<lparr>ncols = 1, rows = [[1], [1]]\<rparr> [5, 7, 9] = Inr []
   \<and> get_vertices linalg_solve_exact \<lparr>ncols = 1, rows = [[1], [1]]\<rparr> [5] = Inl IndexError
   \<and> length [5::real] < shape0 \<lparr>ncols = 1, rows = [[1], [1]]\<rparr>"
proof -
  have 1: "row_index_combinations (shape0 \<lparr>ncols = 1, rows = [[1], [1]]\<rparr>)
      (shape1 \<lparr>ncols = 1, rows = [[1], [1]]\<rparr>) = [] @ [0] # [[1], [2]]"
    by (simp add: eval_defs)
  have 2: "take_idx (np_vstack (rows \<lparr>ncols = 1, rows = [[1], [1]]\<rparr>)
         (np_eye (shape1 \<lparr>ncols = 1, rows = [[1], [1]]\<rparr>))) [0] = Inr [[1]]"
    by (simp add: eval_defs)
  have 3: "take_idx (np_hstack [5, 7, 9] (np_zeros (shape1 \<lparr>ncols = 1, rows = [[1], [1]]\<rparr>))) [0]
       = Inr [5]"
    by (simp add: eval_defs)
  have 4: "try_body linalg_solve_exact \<lparr>ncols = 1, rows = [[1], [1]]\<rparr> [5, 7, 9]
         (shape1 \<lparr>ncols = 1, rows = [[1], [1]]\<rparr>) [[1]] [5] = Inl ValueError"
    by (simp add: eval_defs)
  have 5: "shape0 \<lparr>ncols = 1, rows = [[1], [1]]\<rparr> \<le> length [5::real, 7, 9]"
    by (simp add: shape0_def)
  have 6: "get_vertices linalg_solve_exact \<lparr>ncols = 1, rows = [[1], [1]]\<rparr> [5, 7, 9] = Inr []"
    by (simp add: eval_defs)
  have 7: "get_vertices linalg_solve_exact \<lparr>ncols = 1, rows = [[1], [1]]\<rparr> [5] = Inl IndexError"
    by (simp add: eval_defs)
  note t = try_body_exceptions_suppressed [where solve = linalg_solve_exact
      and A = "\<lparr>ncols = 1, rows = [[1], [1]]\<rparr>" and b = "[5, 7, 9]" and pre = "[]"
      and row_combo = "[0]" and post = "[[1], [2]]" and A_constraints = "[[1]]"
      and b_constraints = "[5]" and e = ValueError]
  from t 1 2 3 4 have 8:
    "get_vertices linalg_solve_exact \<lparr>ncols = 1, rows = [[1], [1]]\<rparr> [5, 7, 9] =
       vertices_loop linalg_solve_exact \<lparr>ncols = 1, rows = [[1], [1]]\<rparr> [5, 7, 9]
         (shape1 \<lparr>ncols = 1, rows = [[1], [1]]\<rparr>)
         (np_vstack (rows \<lparr>ncols = 1, rows = [[1], [1]]\<rparr>)
            (np_eye (shape1 \<lparr>ncols = 1, rows = [[1], [1]]\<rparr>)))
         (np_hstack [5, 7, 9] (np_zeros (shape1 \<lparr>ncols = 1, rows = [[1], [1]]\<rparr>)))
         ([] @ [[1], [2]]) []"
    by blast
  note u = try_body_exceptions_suppressed [where solve = linalg_solve_exact
      and A = "\<lparr>ncols = 1, rows = [[1], [1]]\<rparr>" and b = "[5]" and e' = IndexError]
  from u 7 have 9: "length [5::real] < shape0 \<lparr>ncols = 1, rows = [[1], [1]]\<rparr>"
    by blast
  from 1 2 3 4 5 6 7 8 9 show ?thesis by blast
qed


text \<open>
  Claim C8. \<open>LP_exhaustive_search\<close> is deterministic. A second call on the same
  three arrays, made on the store the first call has left, returns the same outcome as
  the first; more generally two calls on any two stores whose arrays \<open>A\<close>, \<open>b\<close>, \<open>c\<close>
  have the same contents return the same outcome.
\<close>

theorem LP_exhaustive_search_deterministic:
  assumes "A < length (mats h)" and "b < length (vecs h)" and "c < length (vecs h)"
  shows "fst (LP_exhaustive_search_store solve A b c
                (snd (LP_exhaustive_search_store solve A b c h)))
         = fst (LP_exhaustive_search_store solve A b c h)
    \<and> (A' < length (mats h') \<and> b' < length (vecs h') \<and> c' < length (vecs h')
        \<and> mats h' ! A' = mats h ! A \<and> vecs h' ! b' = vecs h ! b \<and> vecs h' ! c' = vecs h ! c
        \<longrightarrow> fst (LP_exhaustive_search_store solve A' b' c' h')
            = fst (LP_exhaustive_search_store solve A b c h))"
proof (intro conjI impI)
  let ?h1 = "snd (LP_exhaustive_search_store solve A b c h)"
  have u: "unchanged h ?h1" by (rule LP_exhaustive_search_store_correct(1) [OF assms])
  have val: "A < length (mats ?h1)" "b < length (vecs ?h1)" "c < length (vecs ?h1)"
    using assms unchanged_length [OF u] by simp_all
  have rd: "mats ?h1 ! A = mats h ! A" "vecs ?h1 ! b = vecs h ! b" "vecs ?h1 ! c = vecs h ! c"
    using assms unchanged_vec [OF u] unchanged_mat [OF u] by simp_all
  show "fst (LP_exhaustive_search_store solve A b c ?h1)
      = fst (LP_exhaustive_search_store solve A b c h)"
    unfolding LP_exhaustive_search_store_correct(2) [OF val]
      LP_exhaustive_search_store_correct(2) [OF assms] rd ..
next
  assume a: "A' < length (mats h') \<and> b' < length (vecs h') \<and> c' < length (vecs h')
        \<and> mats h' ! A' = mats h ! A \<and> vecs h' ! b' = vecs h ! b \<and> vecs h' ! c' = vecs h ! c"
  then have val: "A' < length (mats h')" "b' < length (vecs h')" "c' < length (vecs h')"
    by simp_all
  show "fst (LP_exhaustive_search_store solve A' b' c' h')
      = fst (LP_exhaustive_search_store solve A b c h)"
    unfolding LP_exhaustive_search_store_correct(2) [OF val]
      LP_exhaustive_search_store_correct(2) [OF assms] using a by simp
qed


theorem LP_exhaustive_search_deterministic_witness:
  "(0::nat) < length (mats \<lparr>vecs = [[1 / 10 ^ 15], [1]], mats = [\<lparr>ncols = 1, rows = [[1]]\<rparr>]\<rparr>) \<and> (0::nat) < length (vecs \<lparr>vecs = [[1 / 10 ^ 15], [1]], mats = [\<lparr>ncols = 1, rows = [[1]]\<rparr>]\<rparr>) \<and> (1::nat) < length (vecs \<lparr>vecs = [[1 / 10 ^ 15], [1]], mats = [\<lparr>ncols = 1, rows = [[1]]\<rparr>]\<rparr>)
   \<and> LP_exhaustive_search_store linalg_solve_exact 0 0 1 \<lparr>vecs = [[1 / 10 ^ 15], [1]], mats = [\<lparr>ncols = 1, rows = [[1]]\<rparr>]\<rparr> = (Inr 0, \<lparr>vecs = [[1 / 10 ^ 15], [1], [1 / 10 ^ 15, 0], [1 / 10 ^ 15], [0], [0], [0]],
          mats = [\<lparr>ncols = 1, rows = [[1]]\<rparr>, \<lparr>ncols = 1, rows = [[1], [1]]\<rparr>,
                  \<lparr>ncols = 1, rows = [[1]]\<rparr>, \<lparr>ncols = 1, rows = [[1]]\<rparr>]\<rparr>)
   \<and> fst (LP_exhaustive_search_store linalg_solve_exact 0 0 1
             (snd (LP_exhaustive_search_store linalg_solve_exact 0 0 1 \<lparr>vecs = [[1 / 10 ^ 15], [1]], mats = [\<lparr>ncols = 1, rows = [[1]]\<rparr>]\<rparr>)))
       = fst (LP_exhaustive_search_store linalg_solve_exact 0 0 1 \<lparr>vecs = [[1 / 10 ^ 15], [1]], mats = [\<lparr>ncols = 1, rows = [[1]]\<rparr>]\<rparr>)
   \<and> (0::nat) < length (mats \<lparr>vecs = [[1], [7, 7], [1 / 10 ^ 15]], mats = [\<lparr>ncols = 1, rows = [[1]]\<rparr>]\<rparr>) \<and> (2::nat) < length (vecs \<lparr>vecs = [[1], [7, 7], [1 / 10 ^ 15]], mats = [\<lparr>ncols = 1, rows = [[1]]\<rparr>]\<rparr>) \<and> (0::nat) < length (vecs \<lparr>vecs = [[1], [7, 7], [1 / 10 ^ 15]], mats = [\<lparr>ncols = 1, rows = [[1]]\<rparr>]\<rparr>)
   \<and> mats \<lparr>vecs = [[1], [7, 7], [1 / 10 ^ 15]], mats = [\<lparr>ncols = 1, rows = [[1]]\<rparr>]\<rparr> ! 0 = mats \<lparr>vecs = [[1 / 10 ^ 15], [1]], mats = [\<lparr>ncols = 1, rows = [[1]]\<rparr>]\<rparr> ! 0 \<and> vecs \<lparr>vecs = [[1], [7, 7], [1 / 10 ^ 15]], mats = [\<lparr>ncols = 1, rows = [[1]]\<rparr>]\<rparr> ! 2 = vecs \<lparr>vecs = [[1 / 10 ^ 15], [1]], mats = [\<lparr>ncols = 1, rows = [[1]]\<rparr>]\<rparr> ! 0 \<and> vecs \<lparr>vecs = [[1], [7, 7], [1 / 10 ^ 15]], mats = [\<lparr>ncols = 1, rows = [[1]]\<rparr>]\<rparr> ! 0 = vecs \<lparr>vecs = [[1 / 10 ^ 15], [1]], mats = [\<lparr>ncols = 1, rows = [[1]]\<rparr>]\<rparr> ! 1
   \<and> fst (LP_exhaustive_search_store linalg_solve_exact 0 2 0 \<lparr>vecs = [[1], [7, 7], [1 / 10 ^ 15]], mats = [\<lparr>ncols = 1, rows = [[1]]\<rparr>]\<rparr>)
       = fst (LP_exhaustive_search_store linalg_solve_exact 0 0 1 \<lparr>vecs = [[1 / 10 ^ 15], [1]], mats = [\<lparr>ncols = 1, rows = [[1]]\<rparr>]\<rparr>)"
proof -
  have 1: "(0::nat) < length (mats \<lparr>vecs = [[1 / 10 ^ 15], [1]], mats = [\<lparr>ncols = 1, rows = [[1]]\<rparr>]\<rparr>)" by simp
  have 2: "(0::nat) < length (vecs \<lparr>vecs = [[1 / 10 ^ 15], [1]], mats = [\<lparr>ncols = 1, rows = [[1]]\<rparr>]\<rparr>)" by simp
  have 3: "(1::nat) < length (vecs \<lparr>vecs = [[1 / 10 ^ 15], [1]], mats = [\<lparr>ncols = 1, rows = [[1]]\<rparr>]\<rparr>)" by simp
  have 4: "LP_exhaustive_search_store linalg_solve_exact 0 0 1 \<lparr>vecs = [[1 / 10 ^ 15], [1]], mats = [\<lparr>ncols = 1, rows = [[1]]\<rparr>]\<rparr> = (Inr 0, \<lparr>vecs = [[1 / 10 ^ 15], [1], [1 / 10 ^ 15, 0], [1 / 10 ^ 15], [0], [0], [0]],
          mats = [\<lparr>ncols = 1, rows = [[1]]\<rparr>, \<lparr>ncols = 1, rows = [[1], [1]]\<rparr>,
                  \<lparr>ncols = 1, rows = [[1]]\<rparr>, \<lparr>ncols = 1, rows = [[1]]\<rparr>]\<rparr>)"
    by (simp add: eval_defs store_eval_defs)
  have 5: "(0::nat) < length (mats \<lparr>vecs = [[1], [7, 7], [1 / 10 ^ 15]], mats = [\<lparr>ncols = 1, rows = [[1]]\<rparr>]\<rparr>) \<and> (2::nat) < length (vecs \<lparr>vecs = [[1], [7, 7], [1 / 10 ^ 15]], mats = [\<lparr>ncols = 1, rows = [[1]]\<rparr>]\<rparr>) \<and> (0::nat) < length (vecs \<lparr>vecs = [[1], [7, 7], [1 / 10 ^ 15]], mats = [\<lparr>ncols = 1, rows = [[1]]\<rparr>]\<rparr>)
     \<and> mats \<lparr>vecs = [[1], [7, 7], [1 / 10 ^ 15]], mats = [\<lparr>ncols = 1, rows = [[1]]\<rparr>]\<rparr> ! 0 = mats \<lparr>vecs = [[1 / 10 ^ 15], [1]], mats = [\<lparr>ncols = 1, rows = [[1]]\<rparr>]\<rparr> ! 0 \<and> vecs \<lparr>vecs = [[1], [7, 7], [1 / 10 ^ 15]], mats = [\<lparr>ncols = 1, rows = [[1]]\<rparr>]\<rparr> ! 2 = vecs \<lparr>vecs = [[1 / 10 ^ 15], [1]], mats = [\<lparr>ncols = 1, rows = [[1]]\<rparr>]\<rparr> ! 0 \<and> vecs \<lparr>vecs = [[1], [7, 7], [1 / 10 ^ 15]], mats = [\<lparr>ncols = 1, rows = [[1]]\<rparr>]\<rparr> ! 0 = vecs \<lparr>vecs = [[1 / 10 ^ 15], [1]], mats = [\<lparr>ncols = 1, rows = [[1]]\<rparr>]\<rparr> ! 1"
    by simp
  note t = LP_exhaustive_search_deterministic [where solve = linalg_solve_exact
      and h = "\<lparr>vecs = [[1 / 10 ^ 15], [1]], mats = [\<lparr>ncols = 1, rows = [[1]]\<rparr>]\<rparr>" and A = 0 and b = 0 and c = 1
      and h' = "\<lparr>vecs = [[1], [7, 7], [1 / 10 ^ 15]], mats = [\<lparr>ncols = 1, rows = [[1]]\<rparr>]\<rparr>" and A' = 0 and b' = 2 and c' = 0, OF 1 2 3]
  from t 5 have 6: "fst (LP_exhaustive_search_store linalg_solve_exact 0 2 0 \<lparr>vecs = [[1], [7, 7], [1 / 10 ^ 15]], mats = [\<lparr>ncols = 1, rows = [[1]]\<rparr>]\<rparr>)
       = fst (LP_exhaustive_search_store linalg_solve_exact 0 0 1 \<lparr>vecs = [[1 / 10 ^ 15], [1]], mats = [\<lparr>ncols = 1, rows = [[1]]\<rparr>]\<rparr>)"
    by blast
  from t 1 2 3 4 5 6 show ?thesis by blast
qed

text \<open>
  Claim C10. \<open>get_vertices\<close> and \<open>LP_exhaustive_search\<close> leave every array that exists
  before the call as it is, the inputs \<open>A\<close>, \<open>b\<close> and \<open>c\<close> among them: the stacked
  system, the selected rows and the solved point are new arrays, and the assignment that
  snaps small entries to zero goes to the new array \<open>x\<close>.
\<close>

theorem inputs_unchanged:
  assumes "A < length (mats h)" and "b < length (vecs h)" and "c < length (vecs h)"
  shows "unchanged h (snd (get_vertices_store solve A b h))
    \<and> mats (snd (get_vertices_store solve A b h)) ! A = mats h ! A
    \<and> vecs (snd (get_vertices_store solve A b h)) ! b = vecs h ! b
    \<and> unchanged h (snd (LP_exhaustive_search_store solve A b c h))
    \<and> mats (snd (LP_exhaustive_search_store solve A b c h)) ! A = mats h ! A
    \<and> vecs (snd (LP_exhaustive_search_store solve A b c h)) ! b = vecs h ! b
    \<and> vecs (snd (LP_exhaustive_search_store solve A b c h)) ! c = vecs h ! c"
proof -
  have g: "unchanged h (snd (get_vertices_store solve A b h))"
    using get_vertices_store_correct [OF assms(1,2)] by blast
  have l: "unchanged h (snd (LP_exhaustive_search_store solve A b c h))"
    by (rule LP_exhaustive_search_store_correct(1) [OF assms])
  from g l assms show ?thesis by (simp add: unchanged_vec unchanged_mat)
qed


theorem inputs_unchanged_witness:
  "(0::nat) < length (mats \<lparr>vecs = [[1 / 10 ^ 15], [1]], mats = [\<lparr>ncols = 1, rows = [[1]]\<rparr>]\<rparr>) \<and> (0::nat) < length (vecs \<lparr>vecs = [[1 / 10 ^ 15], [1]], mats = [\<lparr>ncols = 1, rows = [[1]]\<rparr>]\<rparr>) \<and> (1::nat) < length (vecs \<lparr>vecs = [[1 / 10 ^ 15], [1]], mats = [\<lparr>ncols = 1, rows = [[1]]\<rparr>]\<rparr>)
   \<and> get_vertices_store linalg_solve_exact 0 0 \<lparr>vecs = [[1 / 10 ^ 15], [1]], mats = [\<lparr>ncols = 1, rows = [[1]]\<rparr>]\<rparr> = (Inr [4, 6], \<lparr>vecs = [[1 / 10 ^ 15], [1], [1 / 10 ^ 15, 0], [1 / 10 ^ 15], [0], [0], [0]],
          mats = [\<lparr>ncols = 1, rows = [[1]]\<rparr>, \<lparr>ncols = 1, rows = [[1], [1]]\<rparr>,
                  \<lparr>ncols = 1, rows = [[1]]\<rparr>, \<lparr>ncols = 1, rows = [[1]]\<rparr>]\<rparr>)
   \<and> LP_exhaustive_search_store linalg_solve_exact 0 0 1 \<lparr>vecs = [[1 / 10 ^ 15], [1]], mats = [\<lparr>ncols = 1, rows = [[1]]\<rparr>]\<rparr> = (Inr 0, \<lparr>vecs = [[1 / 10 ^ 15], [1], [1 / 10 ^ 15, 0], [1 / 10 ^ 15], [0], [0], [0]],
          mats = [\<lparr>ncols = 1, rows = [[1]]\<rparr>, \<lparr>ncols = 1, rows = [[1], [1]]\<rparr>,
                  \<lparr>ncols = 1, rows = [[1]]\<rparr>, \<lparr>ncols = 1, rows = [[1]]\<rparr>]\<rparr>)
   \<and> unchanged \<lparr>vecs = [[1 / 10 ^ 15], [1]], mats = [\<lparr>ncols = 1, rows = [[1]]\<rparr>]\<rparr> (snd (get_vertices_store linalg_solve_exact 0 0 \<lparr>vecs = [[1 / 10 ^ 15], [1]], mats = [\<lparr>ncols = 1, rows = [[1]]\<rparr>]\<rparr>))
   \<and> mats (snd (get_vertices_store linalg_solve_exact 0 0 \<lparr>vecs = [[1 / 10 ^ 15], [1]], mats = [\<lparr>ncols = 1, rows = [[1]]\<rparr>]\<rparr>)) ! 0 = mats \<lparr>vecs = [[1 / 10 ^ 15], [1]], mats = [\<lparr>ncols = 1, rows = [[1]]\<rparr>]\<rparr> ! 0
   \<and> vecs (snd (get_vertices_store linalg_solve_exact 0 0 \<lparr>vecs = [[1 / 10 ^ 15], [1]], mats = [\<lparr>ncols = 1, rows = [[1]]\<rparr>]\<rparr>)) ! 0 = vecs \<lparr>vecs = [[1 / 10 ^ 15], [1]], mats = [\<lparr>ncols = 1, rows = [[1]]\<rparr>]\<rparr> ! 0
   \<and> unchanged \<lparr>vecs = [[1 / 10 ^ 15], [1]], mats = [\<lparr>ncols = 1, rows = [[1]]\<rparr>]\<rparr> (snd (LP_exhaustive_search_store linalg_solve_exact 0 0 1 \<lparr>vecs = [[1 / 10 ^ 15], [1]], mats = [\<lparr>ncols = 1, rows = [[1]]\<rparr>]\<rparr>))
   \<and> mats (snd (LP_exhaustive_search_store linalg_solve_exact 0 0 1 \<lparr>vecs = [[1 / 10 ^ 15], [1]], mats = [\<lparr>ncols = 1, rows = [[1]]\<rparr>]\<rparr>)) ! 0 = mats \<lparr>vecs = [[1 / 10 ^ 15], [1]], mats = [\<lparr>ncols = 1, rows = [[1]]\<rparr>]\<rparr> ! 0
   \<and> vecs (snd (LP_exhaustive_search_store linalg_solve_exact 0 0 1 \<lparr>vecs = [[1 / 10 ^ 15], [1]], mats = [\<lparr>ncols = 1, rows = [[1]]\<rparr>]\<rparr>)) ! 0 = vecs \<lparr>vecs = [[1 / 10 ^ 15], [1]], mats = [\<lparr>ncols = 1, rows = [[1]]\<rparr>]\<rparr> ! 0
   \<and> vecs (snd (LP_exhaustive_search_store linalg_solve_exact 0 0 1 \<lparr>vecs = [[1 / 10 ^ 15], [1]], mats = [\<lparr>ncols = 1, rows = [[1]]\<rparr>]\<rparr>)) ! 1 = vecs \<lparr>vecs = [[1 / 10 ^ 15], [1]], mats = [\<lparr>ncols = 1, rows = [[1]]\<rparr>]\<rparr> ! 1"
proof -
  have 1: "(0::nat) < length (mats \<lparr>vecs = [[1 / 10 ^ 15], [1]], mats = [\<lparr>ncols = 1, rows = [[1]]\<rparr>]\<rparr>)" by simp
  have 2: "(0::nat) < length (vecs \<lparr>vecs = [[1 / 10 ^ 15], [1]], mats = [\<lparr>ncols = 1, rows = [[1]]\<rparr>]\<rparr>)" by simp
  have 3: "(1::nat) < length (vecs \<lparr>vecs = [[1 / 10 ^ 15], [1]], mats = [\<lparr>ncols = 1, rows = [[1]]\<rparr>]\<rparr>)" by simp
  have 4: "get_vertices_store linalg_solve_exact 0 0 \<lparr>vecs = [[1 / 10 ^ 15], [1]], mats = [\<lparr>ncols = 1, rows = [[1]]\<rparr>]\<rparr> = (Inr [4, 6], \<lparr>vecs = [[1 / 10 ^ 15], [1], [1 / 10 ^ 15, 0], [1 / 10 ^ 15], [0], [0], [0]],
          mats = [\<lparr>ncols = 1, rows = [[1]]\<rparr>, \<lparr>ncols = 1, rows = [[1], [1]]\<rparr>,
                  \<lparr>ncols = 1, rows = [[1]]\<rparr>, \<lparr>ncols = 1, rows = [[1]]\<rparr>]\<rparr>)"
    by (simp add: eval_defs store_eval_defs)
  have 5: "LP_exhaustive_search_store linalg_solve_exact 0 0 1 \<lparr>vecs = [[1 / 10 ^ 15], [1]], mats = [\<lparr>ncols = 1, rows = [[1]]\<rparr>]\<rparr> = (Inr 0, \<lparr>vecs = [[1 / 10 ^ 15], [1], [1 / 10 ^ 15, 0], [1 / 10 ^ 15], [0], [0], [0]],
          mats = [\<lparr>ncols = 1, rows = [[1]]\<rparr>, \<lparr>ncols = 1, rows = [[1], [1]]\<rparr>,
                  \<lparr>ncols = 1, rows = [[1]]\<rparr>, \<lparr>ncols = 1, rows = [[1]]\<rparr>]\<rparr>)"
    by (simp add: eval_defs store_eval_defs)
  from inputs_unchanged [where solve = linalg_solve_exact, OF 1 2 3] 1 2 3 4 5
  show ?thesis by blast
qed


end
